theory Spec2Isabelle
  imports Complex_Main "HOL-Library.Char_ord" "HOL-Library.List_Lexorder" "HOL-Library.AList"
begin


section \<open>The program\<close>

subsection \<open>Path strings\<close>

text \<open>
  The string operations of the standard library that the program calls.
  \<open>lower\<close> is \<open>str.lower\<close> on the ASCII letters; no character outside ASCII lower-cases to
  one of the letters of \<open>mp3\<close> and \<open>wav\<close>, so membership in the supported set is decided
  as in Python. \<open>lstrip c\<close> is \<open>str.lstrip\<close> with a single character. \<open>rfind\<close> is
  \<open>str.rfind\<close> for a single character: the highest index, or \<open>-1\<close>.
  \<open>splitext\<close> is \<open>os.path.splitext\<close> of \<open>posixpath\<close>: the extension starts at the last dot
  of the last path component, unless only dots stand in front of it in that component;
  \<open>skip_leading_dots\<close> is its loop over the characters in front of the dot.
\<close>

definition ascii_upper :: string where "ascii_upper = ''ABCDEFGHIJKLMNOPQRSTUVWXYZ''"
definition ascii_lower :: string where "ascii_lower = ''abcdefghijklmnopqrstuvwxyz''"

definition lower_char :: "char \<Rightarrow> char" where
  "lower_char c = (case map_of (zip ascii_upper ascii_lower) c of Some l \<Rightarrow> l | None \<Rightarrow> c)"

definition lower :: "string \<Rightarrow> string" where
  "lower s = map lower_char s"

definition lstrip :: "char \<Rightarrow> string \<Rightarrow> string" where
  "lstrip c s = dropWhile (\<lambda>x. x = c) s"

fun rfind :: "string \<Rightarrow> char \<Rightarrow> int" where
  "rfind [] c = -1"
| "rfind (x # xs) c =
     (let r = rfind xs c in if 0 \<le> r then r + 1 else if x = c then 0 else -1)"

function skip_leading_dots :: "string \<Rightarrow> nat \<Rightarrow> nat \<Rightarrow> bool" where
  "skip_leading_dots p filenameIndex dotIndex =
     (if filenameIndex < dotIndex
      then (if take 1 (drop filenameIndex p) \<noteq> ''.'' then True
            else skip_leading_dots p (filenameIndex + 1) dotIndex)
      else False)"
  by pat_completeness auto
termination
  by (relation "measure (\<lambda>(p, i, d). d - i)") auto

declare skip_leading_dots.simps [simp del]

definition splitext :: "string \<Rightarrow> string \<times> string" where
  "splitext p =
     (let sepIndex = rfind p CHR ''/'';
          dotIndex = rfind p CHR ''.''
      in if sepIndex < dotIndex \<and> skip_leading_dots p (nat (sepIndex + 1)) (nat dotIndex)
         then (take (nat dotIndex) p, drop (nat dotIndex) p)
         else (p, []))"

definition SUPPORTED_EXTS :: "string set" where
  "SUPPORTED_EXTS = {''mp3'', ''wav''}"

definition is_supported_media :: "string \<Rightarrow> bool" where
  "is_supported_media path =
     (let ext = snd (splitext path) in lstrip CHR ''.'' (lower ext) \<in> SUPPORTED_EXTS)"


subsection \<open>Console messages\<close>

text \<open>
  The program prints Ukrainian text. Strings are modelled as the UTF-8 bytes of the
  Python strings, so each literal of the source is the list of its bytes. On UTF-8 the
  byte-wise lexicographic order of \<^typ>\<open>string\<close> is the code-point order that Python
  uses to compare and sort strings.
  \<^item> \<open>msg_no_pydub\<close>: the \<open>RuntimeError\<close> text of line 39 (pydub is not installed);
  \<^item> \<open>msg_decode_failed\<close>: the \<open>RuntimeError\<close> text of lines 47-48 (the file could not
    be decoded, check that FFmpeg is installed);
  \<^item> \<open>msg_no_mutagen\<close>: the \<open>RuntimeError\<close> text of line 58 (mutagen is not installed);
  \<^item> \<open>msg_not_found\<close>: the prefix of line 104 (error: file not found), before the path;
  \<^item> \<open>msg_unsupported\<close>: line 108 (unsupported format, only .mp3 and .wav allowed);
  \<^item> \<open>msg_file\<close>, \<open>msg_format\<close>: the prefixes of lines 111 and 112;
  \<^item> \<open>msg_duration_error\<close>: the prefix of line 117, before the error text;
  \<^item> \<open>msg_duration\<close>: the prefix of line 120, before the number;
  \<^item> \<open>msg_metadata_error\<close>: the prefix of line 125, before the error text;
  \<^item> \<open>msg_metadata_header\<close>: line 129;
  \<^item> \<open>msg_no_metadata\<close>: line 133 (metadata absent or not supported for this file).
\<close>

definition msg_no_pydub :: string where
  "msg_no_pydub = map char_of
    [208, 145, 209, 150, 208, 177, 208, 187, 209, 150, 208, 190, 209, 130, 208, 181,
     208, 186, 209, 131, 32, 112, 121, 100, 117, 98, 32, 208, 189, 208, 181, 32, 208,
     183, 208, 189, 208, 176, 208, 185, 208, 180, 208, 181, 208, 189, 208, 190, 46, 32,
     208, 146, 209, 129, 209, 130, 208, 176, 208, 189, 208, 190, 208, 178, 209, 150,
     209, 130, 209, 140, 32, 209, 151, 209, 151, 58, 32, 112, 105, 112, 32, 105, 110,
     115, 116, 97, 108, 108, 32, 112, 121, 100, 117, 98 :: nat]"

definition msg_decode_failed :: string where
  "msg_decode_failed = map char_of
    [208, 157, 208, 181, 32, 208, 178, 208, 180, 208, 176, 208, 187, 208, 190, 209, 129,
     209, 143, 32, 208, 180, 208, 181, 208, 186, 208, 190, 208, 180, 209, 131, 208, 178,
     208, 176, 209, 130, 208, 184, 32, 209, 132, 208, 176, 208, 185, 208, 187, 32, 209,
     135, 208, 181, 209, 128, 208, 181, 208, 183, 32, 112, 121, 100, 117, 98, 47, 102,
     102, 109, 112, 101, 103, 46, 32, 208, 159, 208, 181, 209, 128, 208, 181, 208, 186,
     208, 190, 208, 189, 208, 176, 208, 185, 209, 130, 208, 181, 209, 129, 209, 140, 44,
     32, 209, 137, 208, 190, 32, 70, 70, 109, 112, 101, 103, 32, 208, 178, 209, 129,
     209, 130, 208, 176, 208, 189, 208, 190, 208, 178, 208, 187, 208, 181, 208, 189,
     208, 190, 32, 209, 130, 208, 176, 32, 208, 180, 208, 190, 208, 180, 208, 176, 208,
     189, 208, 190, 32, 208, 180, 208, 190, 32, 80, 65, 84, 72, 46 :: nat]"

definition msg_no_mutagen :: string where
  "msg_no_mutagen = map char_of
    [208, 145, 209, 150, 208, 177, 208, 187, 209, 150, 208, 190, 209, 130, 208, 181,
     208, 186, 209, 131, 32, 109, 117, 116, 97, 103, 101, 110, 32, 208, 189, 208, 181,
     32, 208, 183, 208, 189, 208, 176, 208, 185, 208, 180, 208, 181, 208, 189, 208, 190,
     46, 32, 208, 146, 209, 129, 209, 130, 208, 176, 208, 189, 208, 190, 208, 178, 209,
     150, 209, 130, 209, 140, 32, 209, 151, 209, 151, 58, 32, 112, 105, 112, 32, 105,
     110, 115, 116, 97, 108, 108, 32, 109, 117, 116, 97, 103, 101, 110 :: nat]"

definition msg_not_found :: string where
  "msg_not_found = map char_of
    [208, 159, 208, 190, 208, 188, 208, 184, 208, 187, 208, 186, 208, 176, 58, 32, 209,
     132, 208, 176, 208, 185, 208, 187, 32, 208, 189, 208, 181, 32, 208, 183, 208, 189,
     208, 176, 208, 185, 208, 180, 208, 181, 208, 189, 208, 190, 32, 226, 128, 148, 32 :: nat]"

definition msg_unsupported :: string where
  "msg_unsupported = map char_of
    [208, 157, 208, 181, 208, 191, 209, 150, 208, 180, 209, 130, 209, 128, 208, 184,
     208, 188, 209, 131, 208, 178, 208, 176, 208, 189, 208, 184, 208, 185, 32, 209, 132,
     208, 190, 209, 128, 208, 188, 208, 176, 209, 130, 46, 32, 208, 148, 208, 190, 208,
     183, 208, 178, 208, 190, 208, 187, 208, 181, 208, 189, 208, 190, 32, 208, 187, 208,
     184, 209, 136, 208, 181, 32, 46, 109, 112, 51, 32, 209, 130, 208, 176, 32, 46, 119,
     97, 118 :: nat]"

definition msg_file :: string where
  "msg_file = map char_of
    [208, 164, 208, 176, 208, 185, 208, 187, 58, 32 :: nat]"

definition msg_format :: string where
  "msg_format = map char_of
    [208, 164, 208, 190, 209, 128, 208, 188, 208, 176, 209, 130, 58, 32 :: nat]"

definition msg_duration_error :: string where
  "msg_duration_error = map char_of
    [208, 159, 208, 190, 208, 188, 208, 184, 208, 187, 208, 186, 208, 176, 32, 208, 191,
     209, 128, 208, 184, 32, 208, 190, 208, 177, 209, 135, 208, 184, 209, 129, 208, 187,
     208, 181, 208, 189, 208, 189, 209, 150, 32, 209, 130, 209, 128, 208, 184, 208, 178,
     208, 176, 208, 187, 208, 190, 209, 129, 209, 130, 209, 150, 58, 32 :: nat]"

definition msg_duration :: string where
  "msg_duration = map char_of
    [208, 162, 209, 128, 208, 184, 208, 178, 208, 176, 208, 187, 209, 150, 209, 129,
     209, 130, 209, 140, 58, 32 :: nat]"

definition msg_metadata_error :: string where
  "msg_metadata_error = map char_of
    [208, 157, 208, 181, 32, 208, 178, 208, 180, 208, 176, 208, 187, 208, 190, 209, 129,
     209, 143, 32, 208, 191, 209, 128, 208, 190, 209, 135, 208, 184, 209, 130, 208, 176,
     209, 130, 208, 184, 32, 208, 188, 208, 181, 209, 130, 208, 176, 208, 180, 208, 176,
     208, 189, 209, 150, 58, 32 :: nat]"

definition msg_metadata_header :: string where
  "msg_metadata_header = map char_of
    [208, 156, 208, 181, 209, 130, 208, 176, 208, 180, 208, 176, 208, 189, 209, 150, 58 :: nat]"

definition msg_no_metadata :: string where
  "msg_no_metadata = map char_of
    [208, 156, 208, 181, 209, 130, 208, 176, 208, 180, 208, 176, 208, 189, 209, 150, 32,
     208, 178, 209, 150, 208, 180, 209, 129, 209, 131, 209, 130, 208, 189, 209, 150, 32,
     208, 176, 208, 177, 208, 190, 32, 208, 189, 208, 181, 32, 208, 191, 209, 150, 208,
     180, 209, 130, 209, 128, 208, 184, 208, 188, 209, 131, 209, 142, 209, 130, 209,
     140, 209, 129, 209, 143, 32, 208, 180, 208, 187, 209, 143, 32, 209, 134, 209, 140,
     208, 190, 208, 179, 208, 190, 32, 209, 132, 208, 176, 208, 185, 208, 187, 208, 176,
     46 :: nat]"


subsection \<open>Exceptions, collaborators and the event log\<close>

text \<open>
  An exception is kept as its class, as far as the handlers of the program tell classes
  apart, and the text that \<open>str(e)\<close> gives. The type stands for the instances of Python's
  \<open>Exception\<close>, which is the class both handlers of \<open>main\<close> name.
\<close>

datatype exn = CouldntDecodeError string | RuntimeError string | OtherException string

fun str_exn :: "exn \<Rightarrow> string" where
  "str_exn (CouldntDecodeError m) = m"
| "str_exn (RuntimeError m) = m"
| "str_exn (OtherException m) = m"

text \<open>A decoded \<open>AudioSegment\<close>: the program reads only \<open>len(audio)\<close>, in milliseconds.\<close>

datatype audio = Audio (len_ms: nat)

text \<open>
  A Python value that the tag library hands out, as far as \<open>get_metadata\<close> observes it:
  \<open>py_str v\<close> is \<open>str(v)\<close>; \<open>py_elems v\<close> is \<open>Some xs\<close> when \<open>isinstance(v, (list, tuple))\<close>,
  with \<open>xs\<close> its elements in order; \<open>py_text v\<close> is \<open>getattr(v, "text", None)\<close>, with \<open>None\<close>
  for a missing attribute and for the value \<open>None\<close> alike.
\<close>

datatype pyval = PyVal (py_str: string) (py_elems: "pyval list option") (py_text: "pyval option")

text \<open>
  The \<open>tags\<close> object of an opened file: its truth value and what \<open>tags.items()\<close> does,
  raise or return the pairs. Keys of the simplified view are strings; keys of the raw
  view are arbitrary values, which the program turns into strings with \<open>str\<close>.
\<close>

record 'k tags =
  truthy :: bool
  items :: "exn + ('k \<times> pyval) list"

record 'k mfile =
  tags :: "'k tags option"

text \<open>
  \<open>MutagenFile(path, easy=True)\<close> and \<open>MutagenFile(path)\<close>: each raises, returns \<open>None\<close>
  or returns a file object.
\<close>

record mutagen =
  File_easy :: "string \<Rightarrow> exn + string mfile option"
  File_full :: "string \<Rightarrow> exn + pyval mfile option"

text \<open>
  What the program finds around it: the file system, and the two optional libraries,
  each \<open>None\<close> when its import failed at start-up (lines 9-25).
  \<open>AudioSegment\<close> is given as its \<open>from_file(path, format)\<close>.
\<close>

record env =
  isfile :: "string \<Rightarrow> bool"
  AudioSegment :: "(string \<Rightarrow> string \<Rightarrow> exn + audio) option"
  MutagenFile :: "mutagen option"

text \<open>The log of a run: every line printed and every stage or collaborator called, in order.\<close>

datatype event =
    Print string
  | Call_isfile string
  | Call_is_supported_media string
  | Call_get_duration_seconds string
  | Call_from_file string string
  | Call_get_metadata string
  | Call_MutagenFile string bool

type_synonym tag_dict = "(string \<times> string) list"

subsection \<open>Duration\<close>

definition get_duration_seconds :: "env \<Rightarrow> string \<Rightarrow> event list \<times> (exn + rat)" where
  "get_duration_seconds env path =
     (case AudioSegment env of
        None \<Rightarrow> ([], Inl (RuntimeError msg_no_pydub))
      | Some from_file \<Rightarrow>
          (let ext = lstrip CHR ''.'' (lower (snd (splitext path))) in
           case from_file path ext of
             Inl (CouldntDecodeError m) \<Rightarrow>
               ([Call_from_file path ext], Inl (RuntimeError msg_decode_failed))
           | Inl e \<Rightarrow> ([Call_from_file path ext], Inl e)
           | Inr audio \<Rightarrow> ([Call_from_file path ext], Inr (of_nat (len_ms audio) / 1000))))"

subsection \<open>Metadata\<close>

fun join :: "string \<Rightarrow> string list \<Rightarrow> string" where
  "join sep [] = []"
| "join sep [x] = x"
| "join sep (x # y # ys) = x @ sep @ join sep (y # ys)"

text \<open>The loop of lines 66-70 over the simplified view, writing into the dict \<open>tags_out\<close>.\<close>

fun easy_loop :: "(string \<times> pyval) list \<Rightarrow> tag_dict \<Rightarrow> tag_dict" where
  "easy_loop [] tags_out = tags_out"
| "easy_loop ((k, v) # its) tags_out =
     easy_loop its
       (AList.update k
          (case py_elems v of
             Some xs \<Rightarrow> join '', '' (map py_str xs)
           | None \<Rightarrow> py_str v)
          tags_out)"

text \<open>The loop of lines 80-88 over the raw view.\<close>

fun full_loop :: "(pyval \<times> pyval) list \<Rightarrow> tag_dict \<Rightarrow> tag_dict" where
  "full_loop [] tags_out = tags_out"
| "full_loop ((k, v) # its) tags_out =
     full_loop its
       (AList.update (py_str k)
          (case py_text v of
             Some text \<Rightarrow>
               (case py_elems text of
                  Some xs \<Rightarrow> join '', '' (map py_str xs)
                | None \<Rightarrow> py_str v)
           | None \<Rightarrow> py_str v)
          tags_out)"

text \<open>Lines 65-70: the guard on \<open>mf_easy\<close> and its tags; \<open>items()\<close> is not guarded.\<close>

definition easy_tags :: "string mfile option \<Rightarrow> tag_dict \<Rightarrow> exn + tag_dict" where
  "easy_tags mf_easy tags_out =
     (case mf_easy of
        None \<Rightarrow> Inr tags_out
      | Some mf \<Rightarrow>
          (case tags mf of
             None \<Rightarrow> Inr tags_out
           | Some t \<Rightarrow>
               if truthy t
               then (case items t of
                       Inl e \<Rightarrow> Inl e
                     | Inr its \<Rightarrow> Inr (easy_loop its tags_out))
               else Inr tags_out))"

text \<open>Lines 75-88: the same guard; an exception of \<open>items()\<close> is replaced by no items.\<close>

definition full_tags :: "pyval mfile option \<Rightarrow> tag_dict \<Rightarrow> tag_dict" where
  "full_tags mf_full tags_out =
     (case mf_full of
        None \<Rightarrow> tags_out
      | Some mf \<Rightarrow>
          (case tags mf of
             None \<Rightarrow> tags_out
           | Some t \<Rightarrow>
               if truthy t
               then full_loop (case items t of Inl e \<Rightarrow> [] | Inr its \<Rightarrow> its) tags_out
               else tags_out))"

definition get_metadata :: "env \<Rightarrow> string \<Rightarrow> event list \<times> (exn + tag_dict)" where
  "get_metadata env path =
     (case MutagenFile env of
        None \<Rightarrow> ([], Inl (RuntimeError msg_no_mutagen))
      | Some mutagen \<Rightarrow>
          (case File_easy mutagen path of
             Inl e \<Rightarrow> ([Call_MutagenFile path True], Inl e)
           | Inr mf_easy \<Rightarrow>
               (case easy_tags mf_easy [] of
                  Inl e \<Rightarrow> ([Call_MutagenFile path True], Inl e)
                | Inr tags_out \<Rightarrow>
                    if tags_out = []
                    then (case File_full mutagen path of
                            Inl e \<Rightarrow>
                              ([Call_MutagenFile path True, Call_MutagenFile path False], Inl e)
                          | Inr mf_full \<Rightarrow>
                              ([Call_MutagenFile path True, Call_MutagenFile path False],
                               Inr (full_tags mf_full tags_out)))
                    else ([Call_MutagenFile path True], Inr tags_out))))"

subsection \<open>The dispatcher\<close>

text \<open>
  \<open>f"{duration:.3f}"\<close> for a duration that is not negative: the number rounded to a
  multiple of one thousandth, the integer part in decimal, a dot and three digits.
  The source divides \<open>len(audio)\<close> by \<open>1000.0\<close> in binary floating point; the model keeps the
  exact quotient, which prints the same digits for every length below \<open>2 ^ 52\<close>
  milliseconds.
\<close>

definition digit :: "nat \<Rightarrow> char" where
  "digit n = ''0123456789'' ! (n mod 10)"

definition is_digit :: "char \<Rightarrow> bool" where
  "is_digit c = (c \<in> set ''0123456789'')"

function show_nat :: "nat \<Rightarrow> string" where
  "show_nat n = (if n < 10 then [digit n] else show_nat (n div 10) @ [digit n])"
  by pat_completeness auto
termination
  by (relation "measure id") auto

declare show_nat.simps [simp del]

definition fmt_3f :: "rat \<Rightarrow> string" where
  "fmt_3f duration =
     (let m = nat (round (duration * 1000))
      in show_nat (m div 1000) @ ''.'' @ [digit (m div 100), digit (m div 10), digit m])"

text \<open>Lines 128-133: the tag block, keys in sorted order, or the notice.\<close>

definition print_metadata :: "tag_dict \<Rightarrow> event list" where
  "print_metadata md =
     (if md \<noteq> []
      then Print msg_metadata_header #
           map (\<lambda>k. Print (''  - '' @ k @ '': '' @ the (map_of md k))) (sort (map fst md))
      else [Print msg_no_metadata])"

text \<open>
  \<open>main\<close>, from the parsed argument \<open>args.path\<close> on (lines 102-135). The result is the
  log of the run and the exit code. \<open>main_started\<close> is the log of lines 103-115 for a
  path that passes both checks, up to the call of the duration stage.
\<close>

definition main_started :: "string \<Rightarrow> event list" where
  "main_started path =
     [Call_isfile path, Call_is_supported_media path,
      Print (msg_file @ path),
      Print (msg_format @ lstrip CHR ''.'' (lower (snd (splitext path)))),
      Call_get_duration_seconds path]"

definition main :: "env \<Rightarrow> string \<Rightarrow> event list \<times> nat" where
  "main env path =
     (if \<not> isfile env path
      then ([Call_isfile path, Print (msg_not_found @ path)], 1)
      else if \<not> is_supported_media path
      then ([Call_isfile path, Call_is_supported_media path, Print msg_unsupported], 2)
      else
        (case get_duration_seconds env path of
           (ev, Inl e) \<Rightarrow>
             (main_started path @ ev @ [Print (msg_duration_error @ str_exn e)], 3)
         | (ev, Inr duration) \<Rightarrow>
             (let timed =
                    main_started path @ ev @
                    [Print (msg_duration @ fmt_3f duration @ '' c''),
                     Call_get_metadata path]
              in case get_metadata env path of
                   (ev', Inl e) \<Rightarrow>
                     (timed @ ev' @ [Print (msg_metadata_error @ str_exn e)], 0)
                 | (ev', Inr md) \<Rightarrow>
                     (timed @ ev' @ print_metadata md, 0))))"


subsection \<open>Auxiliary notions for the metadata stage\<close>

text \<open>
  The two extraction strategies of the metadata stage as functions of their own, each
  from the tag library to the flat mapping: the simplified view (lines 64-70) and the
  raw view (lines 74-88).
\<close>

definition simplified_view :: "mutagen \<Rightarrow> string \<Rightarrow> exn + tag_dict" where
  "simplified_view m path =
     (case File_easy m path of Inl e \<Rightarrow> Inl e | Inr mf_easy \<Rightarrow> easy_tags mf_easy [])"

definition raw_view :: "mutagen \<Rightarrow> string \<Rightarrow> exn + tag_dict" where
  "raw_view m path =
     (case File_full m path of Inl e \<Rightarrow> Inl e | Inr mf_full \<Rightarrow> Inr (full_tags mf_full []))"

text \<open>The string stored for one value, in each loop, and a run of dict assignments.\<close>

definition easy_value :: "pyval \<Rightarrow> string" where
  "easy_value v =
     (case py_elems v of Some xs \<Rightarrow> join '', '' (map py_str xs) | None \<Rightarrow> py_str v)"

definition full_value :: "pyval \<Rightarrow> string" where
  "full_value v =
     (case py_text v of
        Some text \<Rightarrow>
          (case py_elems text of Some xs \<Rightarrow> join '', '' (map py_str xs) | None \<Rightarrow> py_str v)
      | None \<Rightarrow> py_str v)"

fun assign_all :: "(string \<times> string) list \<Rightarrow> tag_dict \<Rightarrow> tag_dict" where
  "assign_all [] d = d"
| "assign_all ((k, v) # kvs) d = assign_all kvs (AList.update k v d)"


subsection \<open>Reading a decimal numeral\<close>

text \<open>
  The number that a string of decimal digits denotes; it is used to state which number
  the printed duration shows.
\<close>

definition digit_value :: "char \<Rightarrow> nat" where
  "digit_value c = of_char c - 48"

definition dec_value :: "string \<Rightarrow> nat" where
  "dec_value s = foldl (\<lambda>acc c. 10 * acc + digit_value c) 0 s"


subsection \<open>Example environments\<close>

text \<open>
  \<open>song.mp3\<close> decodes to three seconds and carries one simplified tag; \<open>broken.mp3\<close>
  exists and does not decode; \<open>notes.txt\<close> exists.
\<close>

definition demo_env :: env where
  "demo_env =
     \<lparr> isfile = (\<lambda>p. p \<in> set [''song.mp3'', ''broken.mp3'', ''notes.txt'']),
       AudioSegment =
         Some (\<lambda>p f. if p = ''song.mp3'' then Inr (Audio 3000)
                      else Inl (CouldntDecodeError ''Decoding failed'')),
       MutagenFile =
         Some \<lparr> File_easy =
                  (\<lambda>p. Inr (Some \<lparr> tags = Some \<lparr> truthy = True,
                     items = Inr [(''title'', PyVal ''Test'' None None)] \<rparr> \<rparr>)),
                File_full = (\<lambda>p. Inr None) \<rparr> \<rparr>"

text \<open>The same machine without pydub, and without mutagen.\<close>

definition no_pydub_env :: env where
  "no_pydub_env = demo_env \<lparr> AudioSegment := None \<rparr>"

definition no_mutagen_env :: env where
  "no_mutagen_env = demo_env \<lparr> MutagenFile := None \<rparr>"

text \<open>A decoder that fails with an exception other than \<open>CouldntDecodeError\<close>.\<close>

definition no_ffmpeg_env :: env where
  "no_ffmpeg_env =
     demo_env \<lparr> AudioSegment := Some (\<lambda>p f. Inl (OtherException ''ffmpeg not found'')) \<rparr>"



definition raw_broken_env :: env where
  "raw_broken_env =
     demo_env \<lparr> MutagenFile :=
       Some \<lparr> File_easy = (\<lambda>p. Inr (Some \<lparr> tags = None \<rparr>)),
              File_full =
                (\<lambda>p. Inr (Some \<lparr> tags = Some \<lparr> truthy = True,
                   items = Inl (OtherException ''corrupt tag block'') \<rparr> \<rparr>)) \<rparr> \<rparr>"

text \<open>A file whose simplified view has a title and a list of two artists.\<close>

definition artists :: pyval where
  "artists = PyVal ''[Ann, Bob]'' (Some [PyVal ''Ann'' None None, PyVal ''Bob'' None None]) None"

definition multi_env :: env where
  "multi_env =
     demo_env \<lparr> MutagenFile :=
       Some \<lparr> File_easy =
                (\<lambda>p. Inr (Some \<lparr> tags = Some \<lparr> truthy = True,
                   items = Inr [(''title'', PyVal ''[Test]'' (Some [PyVal ''Test'' None None]) None),
                                (''artist'', artists)] \<rparr> \<rparr>)),
              File_full = (\<lambda>p. Inr None) \<rparr> \<rparr>"




section \<open>Properties\<close>

subsection \<open>Path strings\<close>

lemma rfind_bounds: "- 1 \<le> rfind p c \<and> rfind p c < int (length p)"
  by (induction p) (auto simp: Let_def)

lemma rfind_nth: "0 \<le> rfind p c \<Longrightarrow> p ! nat (rfind p c) = c"
  by (induction p) (auto simp: Let_def nat_add_distrib split: if_splits)

lemma rfind_after: "j < length p \<Longrightarrow> rfind p c < int j \<Longrightarrow> p ! j \<noteq> c"
proof (induction p arbitrary: j)
  case Nil
  then show ?case by simp
next
  case (Cons x xs)
  show ?case
  proof (cases j)
    case 0
    with Cons.prems show ?thesis by (auto simp: Let_def split: if_splits)
  next
    case (Suc k)
    with Cons.prems have "k < length xs" "rfind xs c < int k"
      by (auto simp: Let_def split: if_splits)
    with Cons.IH Suc show ?thesis by simp
  qed
qed

lemma rfind_append:
  "rfind (xs @ ys) c = (if c \<in> set ys then int (length xs) + rfind ys c else rfind xs c)"
proof (induction xs)
  case Nil
  have "c \<notin> set ys \<Longrightarrow> rfind ys c = - 1"
    by (induction ys) (auto simp: Let_def)
  then show ?case by simp
next
  case (Cons x xs)
  have pos: "c \<in> set ys \<Longrightarrow> 0 \<le> rfind ys c"
    by (induction ys) (auto simp: Let_def)
  show ?case using Cons pos by (auto simp: Let_def)
qed

lemma rfind_notin: "c \<notin> set p \<Longrightarrow> rfind p c = - 1"
  by (induction p) (auto simp: Let_def)

lemma rfind_last_occurrence: "c \<notin> set ys \<Longrightarrow> rfind (xs @ c # ys) c = int (length xs)"
  by (simp add: rfind_append rfind_notin Let_def)

lemma skip_leading_dots_iff:
  "d \<le> length p \<Longrightarrow>
   skip_leading_dots p i d \<longleftrightarrow> (\<exists>j. i \<le> j \<and> j < d \<and> p ! j \<noteq> CHR ''.'')"
proof (induction p i d rule: skip_leading_dots.induct)
  case (1 p i d)
  show ?case
  proof (cases "i < d")
    case False
    then show ?thesis by (subst skip_leading_dots.simps) auto
  next
    case True
    with "1.prems" have il: "i < length p" by simp
    then have t1: "take 1 (drop i p) = [p ! i]"
      by (metis One_nat_def take_Suc_conv_app_nth take_0 append_Nil drop_eq_Nil hd_drop_conv_nth linorder_not_le list.collapse take_Suc)
    show ?thesis
    proof (cases "p ! i = CHR ''.''")
      case False
      with True t1 show ?thesis by (subst skip_leading_dots.simps) auto
    next
      case dot: True
      have "skip_leading_dots p i d = skip_leading_dots p (i + 1) d"
        using True t1 dot by (subst skip_leading_dots.simps) simp
      also have "\<dots> \<longleftrightarrow> (\<exists>j. i + 1 \<le> j \<and> j < d \<and> p ! j \<noteq> CHR ''.'')"
        using "1.IH" True t1 dot "1.prems" by simp
      also have "\<dots> \<longleftrightarrow> (\<exists>j. i \<le> j \<and> j < d \<and> p ! j \<noteq> CHR ''.'')"
        using dot by (metis Suc_eq_plus1 Suc_leI le_eq_less_or_eq Suc_leD)
      finally show ?thesis .
    qed
  qed
qed


lemma lower_char_dot: "lower_char c = CHR ''.'' \<longleftrightarrow> c = CHR ''.''"
  by (auto simp: lower_char_def ascii_upper_def ascii_lower_def split: option.splits if_splits)

lemma lower_char_range:
  "lower_char c \<in> set ''mp3wav'' \<Longrightarrow> c \<noteq> CHR ''.'' \<and> c \<noteq> CHR ''/''"
  by (auto simp: lower_char_def ascii_upper_def ascii_lower_def)

lemma lower_supported:
  assumes "lower e \<in> SUPPORTED_EXTS"
  shows "CHR ''.'' \<notin> set e \<and> CHR ''/'' \<notin> set e \<and> e \<noteq> []"
proof -
  have "set (lower e) \<subseteq> set ''mp3wav''" "lower e \<noteq> []"
    using assms by (auto simp: SUPPORTED_EXTS_def)
  then have "\<forall>c\<in>set e. lower_char c \<in> set ''mp3wav''" "e \<noteq> []"
    by (auto simp: lower_def)
  then show ?thesis using lower_char_range by blast
qed

lemma lstrip_lower_ext:
  "CHR ''.'' \<notin> set e \<Longrightarrow> lstrip CHR ''.'' (lower (CHR ''.'' # e)) = lower e"
proof -
  assume a: "CHR ''.'' \<notin> set e"
  have "lower_char CHR ''.'' = CHR ''.''" by (simp add: lower_char_dot)
  moreover have "dropWhile (\<lambda>x. x = CHR ''.'') (lower e) = lower e"
    using a by (cases e) (auto simp: lower_def lower_char_dot)
  ultimately show ?thesis by (simp add: lstrip_def lower_def)
qed

lemma rfind_dir:
  assumes "dir = [] \<or> last dir = CHR ''/''"
  shows "rfind dir CHR ''/'' + 1 = int (length dir)"
proof (cases "dir = []")
  case True
  then show ?thesis by simp
next
  case False
  with assms have "dir = butlast dir @ [CHR ''/'']" by (metis append_butlast_last_id)
  then have "rfind dir CHR ''/'' = rfind (butlast dir @ CHR ''/'' # []) CHR ''/''" by simp
  also have "\<dots> = int (length (butlast dir))" by (rule rfind_last_occurrence) simp
  finally show ?thesis using False by (simp add: of_nat_diff Suc_leI)
qed

lemma splitext_intro:
  assumes p: "p = dir @ base @ CHR ''.'' # e"
    and dir: "dir = [] \<or> last dir = CHR ''/''"
    and base: "CHR ''/'' \<notin> set base" "\<exists>c\<in>set base. c \<noteq> CHR ''.''"
    and e: "CHR ''.'' \<notin> set e" "CHR ''/'' \<notin> set e"
  shows "splitext p = (dir @ base, CHR ''.'' # e)"
proof -
  have "rfind ((dir @ base) @ CHR ''.'' # e) CHR ''.'' = int (length (dir @ base))"
    using e(1) by (rule rfind_last_occurrence)
  then have dot: "rfind p CHR ''.'' = int (length dir + length base)"
    by (simp add: p)
  have "rfind p CHR ''/'' = rfind dir CHR ''/''"
    using base(1) e(2) by (simp add: p rfind_append)
  with rfind_dir [OF dir] have sep: "rfind p CHR ''/'' + 1 = int (length dir)" by simp
  from base(2) obtain k where k: "k < length base" "base ! k \<noteq> CHR ''.''"
    by (auto simp: in_set_conv_nth)
  have "p ! (length dir + k) = base ! k"
    using k(1) by (simp add: p nth_append)
  with k have "\<exists>j. length dir \<le> j \<and> j < length dir + length base \<and> p ! j \<noteq> CHR ''.''"
    by (intro exI [of _ "length dir + k"]) simp
  moreover have "length dir + length base \<le> length p" by (simp add: p)
  ultimately have "skip_leading_dots p (length dir) (length dir + length base)"
    by (simp only: skip_leading_dots_iff)
  then have skip: "skip_leading_dots p (nat (rfind p CHR ''/'' + 1)) (nat (rfind p CHR ''.''))"
    by (simp only: sep dot nat_int)
  have lt: "rfind p CHR ''/'' < rfind p CHR ''.''" using sep dot by linarith
  have "splitext p = (take (nat (rfind p CHR ''.'')) p, drop (nat (rfind p CHR ''.'')) p)"
    using lt skip by (simp only: splitext_def Let_def if_True simp_thms)
  also have "\<dots> = (take (length (dir @ base)) p, drop (length (dir @ base)) p)"
    by (simp only: dot nat_int length_append)
  also have "\<dots> = (dir @ base, CHR ''.'' # e)"
    by (simp add: p)
  finally show ?thesis .
qed

lemma splitext_elim:
  assumes "snd (splitext p) \<noteq> []"
  shows "\<exists>dir base e. p = dir @ base @ CHR ''.'' # e \<and> splitext p = (dir @ base, CHR ''.'' # e)
           \<and> (dir = [] \<or> last dir = CHR ''/'') \<and> CHR ''/'' \<notin> set base
           \<and> (\<exists>c\<in>set base. c \<noteq> CHR ''.'') \<and> CHR ''.'' \<notin> set e \<and> CHR ''/'' \<notin> set e"
proof -
  define s where "s = rfind p CHR ''/''"
  define d where "d = rfind p CHR ''.''"
  define s1 where "s1 = nat (s + 1)"
  define dn where "dn = nat d"
  have br: "s < d" "skip_leading_dots p s1 dn" "splitext p = (take dn p, drop dn p)"
    using assms unfolding splitext_def s_def d_def s1_def dn_def Let_def
    by (simp_all split: if_splits)
  have sb: "- 1 \<le> s" "s < int (length p)" and db: "d < int (length p)"
    using rfind_bounds [of p "CHR ''/''"] rfind_bounds [of p "CHR ''.''"]
    by (auto simp: s_def d_def)
  have d0: "0 \<le> d" using br(1) sb(1) by simp
  have dn: "dn < length p" "int dn = d" using d0 db by (auto simp: dn_def)
  have s1: "s1 \<le> dn" "int s1 = s + 1" using br(1) sb(1) d0 by (auto simp: s1_def dn_def)
  have pd: "p ! dn = CHR ''.''" using rfind_nth [of p "CHR ''.''"] d0 by (simp add: dn_def d_def)
  define dir where "dir = take s1 p"
  define base where "base = take (dn - s1) (drop s1 p)"
  define e where "e = drop (Suc dn) p"
  have tk: "take dn p = dir @ base"
  proof -
    have "take (s1 + (dn - s1)) p = take s1 p @ take (dn - s1) (drop s1 p)"
      by (rule take_add)
    with s1(1) show ?thesis by (simp add: dir_def base_def)
  qed
  have dr: "drop dn p = CHR ''.'' # e"
    using dn(1) pd by (simp add: e_def Cons_nth_drop_Suc [symmetric])
  have p: "p = dir @ base @ CHR ''.'' # e"
    using tk dr append_take_drop_id [of dn p] by simp
  have after_s: "\<And>j. j < length p \<Longrightarrow> s1 \<le> j \<Longrightarrow> p ! j \<noteq> CHR ''/''"
    using rfind_after [of _ p "CHR ''/''"] s1(2) by (simp add: s_def)
  have after_d: "\<And>j. j < length p \<Longrightarrow> dn < j \<Longrightarrow> p ! j \<noteq> CHR ''.''"
    using rfind_after [of _ p "CHR ''.''"] dn(2) by (simp add: d_def)
  have c1: "dir = [] \<or> last dir = CHR ''/''"
  proof (cases "s = - 1")
    case True
    then show ?thesis by (simp add: dir_def s1_def)
  next
    case False
    with sb have s0: "0 \<le> s" by simp
    then have "p ! nat s = CHR ''/''" using rfind_nth [of p "CHR ''/''"] by (simp add: s_def)
    moreover have "s1 = Suc (nat s)" using s0 by (simp add: s1_def nat_add_distrib)
    moreover have "nat s < length p" using sb s0 by simp
    ultimately show ?thesis by (simp add: dir_def take_Suc_conv_app_nth)
  qed
  have c2: "CHR ''/'' \<notin> set base"
  proof
    assume "CHR ''/'' \<in> set base"
    then obtain k where "k < length base" "base ! k = CHR ''/''" by (auto simp: in_set_conv_nth)
    then have "s1 + k < length p" "p ! (s1 + k) = CHR ''/''"
      using dn(1) s1(1) by (auto simp: base_def)
    with after_s [of "s1 + k"] show False by simp
  qed
  have c3: "\<exists>c\<in>set base. c \<noteq> CHR ''.''"
  proof -
    from br(2) dn(1) obtain j where j: "s1 \<le> j" "j < dn" "p ! j \<noteq> CHR ''.''"
      by (auto simp: skip_leading_dots_iff)
    then have "j - s1 < length base" "base ! (j - s1) = p ! j"
      using dn(1) by (auto simp: base_def)
    with j(3) show ?thesis by (metis nth_mem)
  qed
  have c4: "CHR ''.'' \<notin> set e"
  proof
    assume "CHR ''.'' \<in> set e"
    then obtain k where "k < length e" "e ! k = CHR ''.''" by (auto simp: in_set_conv_nth)
    then have "Suc dn + k < length p" "p ! (Suc dn + k) = CHR ''.''"
      by (auto simp: e_def)
    with after_d [of "Suc dn + k"] show False by simp
  qed
  have c5: "CHR ''/'' \<notin> set e"
  proof
    assume "CHR ''/'' \<in> set e"
    then obtain k where "k < length e" "e ! k = CHR ''/''" by (auto simp: in_set_conv_nth)
    then have "Suc dn + k < length p" "p ! (Suc dn + k) = CHR ''/''"
      by (auto simp: e_def)
    with after_s [of "Suc dn + k"] s1(1) show False by simp
  qed
  have sp: "splitext p = (dir @ base, CHR ''.'' # e)"
    by (simp only: br(3) tk dr)
  show ?thesis
    by (rule exI [of _ dir], rule exI [of _ base], rule exI [of _ e])
       (intro conjI p sp c1 c2 c3 c4 c5)
qed

lemma supported_ext_iff:
  "is_supported_media path \<longleftrightarrow>
     (\<exists>e. snd (splitext path) = CHR ''.'' # e \<and> lower e \<in> SUPPORTED_EXTS)"
proof
  assume sup: "is_supported_media path"
  have "snd (splitext path) \<noteq> []"
  proof
    assume "snd (splitext path) = []"
    with sup show False
      by (simp add: is_supported_media_def lower_def lstrip_def SUPPORTED_EXTS_def)
  qed
  from splitext_elim [OF this] obtain dir base e
    where sp: "splitext path = (dir @ base, CHR ''.'' # e)" and nd: "CHR ''.'' \<notin> set e"
    by blast
  from sup sp have "lstrip CHR ''.'' (lower (CHR ''.'' # e)) \<in> SUPPORTED_EXTS"
    by (simp add: is_supported_media_def)
  with nd have "lower e \<in> SUPPORTED_EXTS" by (simp add: lstrip_lower_ext)
  with sp show "\<exists>e. snd (splitext path) = CHR ''.'' # e \<and> lower e \<in> SUPPORTED_EXTS"
    by simp
next
  assume "\<exists>e. snd (splitext path) = CHR ''.'' # e \<and> lower e \<in> SUPPORTED_EXTS"
  then obtain e where e: "snd (splitext path) = CHR ''.'' # e" "lower e \<in> SUPPORTED_EXTS"
    by blast
  from lower_supported [OF e(2)] have "CHR ''.'' \<notin> set e" by simp
  then have "lstrip CHR ''.'' (lower (CHR ''.'' # e)) = lower e" by (rule lstrip_lower_ext)
  with e show "is_supported_media path" by (simp add: is_supported_media_def)
qed

lemma supported_shape_iff:
  "is_supported_media path \<longleftrightarrow>
     (\<exists>dir base e. path = dir @ base @ CHR ''.'' # e
        \<and> (dir = [] \<or> last dir = CHR ''/'') \<and> CHR ''/'' \<notin> set base
        \<and> (\<exists>c\<in>set base. c \<noteq> CHR ''.'') \<and> lower e \<in> SUPPORTED_EXTS)"
  (is "?L \<longleftrightarrow> ?R")
proof
  assume ?L
  then obtain e0 where e0: "snd (splitext path) = CHR ''.'' # e0" "lower e0 \<in> SUPPORTED_EXTS"
    by (auto simp: supported_ext_iff)
  then have "snd (splitext path) \<noteq> []" by simp
  from splitext_elim [OF this] obtain dir base e
    where d: "path = dir @ base @ CHR ''.'' # e" "splitext path = (dir @ base, CHR ''.'' # e)"
      "dir = [] \<or> last dir = CHR ''/''" "CHR ''/'' \<notin> set base"
      "\<exists>c\<in>set base. c \<noteq> CHR ''.''"
    by blast
  from d(2) e0(1) have "e = e0" by simp
  with e0(2) have "lower e \<in> SUPPORTED_EXTS" by simp
  with d(1,3,4,5) show ?R
    by (intro exI [of _ dir] exI [of _ base] exI [of _ e] conjI)
next
  assume ?R
  then obtain dir base e where d: "path = dir @ base @ CHR ''.'' # e"
      "dir = [] \<or> last dir = CHR ''/''" "CHR ''/'' \<notin> set base"
      "\<exists>c\<in>set base. c \<noteq> CHR ''.''" "lower e \<in> SUPPORTED_EXTS"
    by blast
  from lower_supported [OF d(5)] have e: "CHR ''.'' \<notin> set e" "CHR ''/'' \<notin> set e"
    by simp_all
  from splitext_intro [OF d(1) d(2) d(3) d(4) e]
  have "snd (splitext path) = CHR ''.'' # e" by simp
  with d(5) show ?L by (auto simp: supported_ext_iff)
qed

subsection \<open>Number formatting\<close>

lemma show_nat_small: "n < 10 \<Longrightarrow> show_nat n = [digit n]"
  by (subst show_nat.simps) simp
lemma show_nat_large: "\<not> n < 10 \<Longrightarrow> show_nat n = show_nat (n div 10) @ [digit n]"
  by (subst show_nat.simps) simp
lemma is_digit_digit: "is_digit (digit n)"
  unfolding is_digit_def digit_def by (rule nth_mem) simp
lemma show_nat_digits: "show_nat n \<noteq> [] \<and> list_all is_digit (show_nat n)"
proof (induction n rule: show_nat.induct)
  case (1 n)
  show ?case
  proof (cases "n < 10")
    case True
    then show ?thesis by (simp add: show_nat_small is_digit_digit)
  next
    case False
    with "1.IH" show ?thesis by (simp add: show_nat_large is_digit_digit)
  qed
qed
lemma fmt_3f_shape:
  "\<exists>ip fp. fmt_3f d = ip @ ''.'' @ fp \<and> ip \<noteq> [] \<and> list_all is_digit ip
      \<and> length fp = 3 \<and> list_all is_digit fp"
proof -
  define m where "m = nat (round (d * 1000))"
  have "fmt_3f d = show_nat (m div 1000) @ ''.'' @ [digit (m div 100), digit (m div 10), digit m]"
    by (simp add: fmt_3f_def m_def Let_def)
  moreover have "length [digit (m div 100), digit (m div 10), digit m] = 3" by simp
  moreover have "list_all is_digit [digit (m div 100), digit (m div 10), digit m]"
    by (simp add: is_digit_digit)
  ultimately show ?thesis using show_nat_digits [of "m div 1000"] by blast
qed

lemma digit_value_table: "i < 10 \<Longrightarrow> digit_value (''0123456789'' ! i) = i"
proof -
  assume "i < 10"
  then have "i \<in> {0, 1, 2, 3, 4, 5, 6, 7, 8, 9}" by auto
  then show ?thesis by (auto simp: digit_value_def)
qed

lemma digit_value_digit: "digit_value (digit n) = n mod 10"
  unfolding digit_def by (rule digit_value_table) simp

lemma digit_zero_iff: "digit n = CHR ''0'' \<longleftrightarrow> n mod 10 = 0"
proof
  assume z: "digit n = CHR ''0''"
  have "n mod 10 = digit_value (digit n)" by (simp only: digit_value_digit)
  also have "\<dots> = digit_value CHR ''0''" by (simp only: z)
  also have "\<dots> = 0" by (simp add: digit_value_def)
  finally show "n mod 10 = 0" .
next
  assume "n mod 10 = 0"
  then show "digit n = CHR ''0''" by (simp add: digit_def)
qed

lemma dec_value_snoc: "dec_value (xs @ [c]) = 10 * dec_value xs + digit_value c"
  by (simp add: dec_value_def)

lemma dec_value_show_nat: "dec_value (show_nat n) = n"
proof (induction n rule: show_nat.induct)
  case (1 n)
  show ?case
  proof (cases "n < 10")
    case True
    then show ?thesis by (simp add: show_nat_small dec_value_def digit_value_digit)
  next
    case False
    with "1.IH" show ?thesis
      by (simp add: show_nat_large dec_value_snoc digit_value_digit)
  qed
qed

lemma dec_value_three_digits:
  "dec_value [digit (m div 100), digit (m div 10), digit m] = m mod 1000"
proof -
  have "dec_value [digit (m div 100), digit (m div 10), digit m]
          = 100 * (m div 100 mod 10) + 10 * (m div 10 mod 10) + m mod 10"
    by (simp add: dec_value_def digit_value_digit)
  also have "\<dots> = m mod 1000"
  proof -
    have a: "m mod 1000 = 10 * (m div 10 mod 100) + m mod 10"
      using mod_mult2_eq [of m 10 100] by simp
    have b: "m div 10 mod 100 = 10 * (m div 10 div 10 mod 10) + m div 10 mod 10"
      using mod_mult2_eq [of "m div 10" 10 10] by simp
    have c: "m div 10 div 10 = m div 100"
      using div_mult2_eq [of m 10 10] by simp
    show ?thesis unfolding a b c by simp
  qed
  finally show ?thesis .
qed

lemma show_nat_no_leading_zero: "0 < n \<Longrightarrow> hd (show_nat n) \<noteq> CHR ''0''"
proof (induction n rule: show_nat.induct)
  case (1 n)
  show ?case
  proof (cases "n < 10")
    case True
    with "1.prems" show ?thesis by (simp add: show_nat_small digit_zero_iff)
  next
    case False
    then have "0 < n div 10" by simp
    with "1.IH" False have "hd (show_nat (n div 10)) \<noteq> CHR ''0''" by simp
    moreover have "show_nat (n div 10) \<noteq> []" using show_nat_digits by blast
    ultimately show ?thesis using False by (simp add: show_nat_large)
  qed
qed

lemma show_nat_canonical: "show_nat n = ''0'' \<or> hd (show_nat n) \<noteq> CHR ''0''"
proof (cases "n = 0")
  case True
  then show ?thesis by (simp add: show_nat_small digit_def)
next
  case False
  then show ?thesis by (simp add: show_nat_no_leading_zero)
qed

lemma fmt_3f_millis:
  "\<exists>ip fp. fmt_3f (of_nat n / 1000) = ip @ ''.'' @ fp
      \<and> ip \<noteq> [] \<and> list_all is_digit ip \<and> length fp = 3 \<and> list_all is_digit fp
      \<and> (ip = ''0'' \<or> hd ip \<noteq> CHR ''0'')
      \<and> dec_value ip = n div 1000 \<and> dec_value fp = n mod 1000"
proof -
  have m: "nat (round (rat_of_nat n / 1000 * 1000)) = n" by simp
  define ip where "ip = show_nat (n div 1000)"
  define fp where "fp = [digit (n div 100), digit (n div 10), digit n]"
  have f: "fmt_3f (of_nat n / 1000) = ip @ ''.'' @ fp"
    unfolding fmt_3f_def m by (simp add: Let_def ip_def fp_def)
  have i: "ip \<noteq> []" "list_all is_digit ip"
    using show_nat_digits [of "n div 1000"] by (simp_all add: ip_def)
  have p: "length fp = 3" "list_all is_digit fp"
    by (simp_all add: fp_def is_digit_digit)
  have z: "ip = ''0'' \<or> hd ip \<noteq> CHR ''0''"
    unfolding ip_def by (rule show_nat_canonical)
  have vi: "dec_value ip = n div 1000" by (simp add: ip_def dec_value_show_nat)
  have vp: "dec_value fp = n mod 1000" by (simp add: fp_def dec_value_three_digits)
  show ?thesis
    by (rule exI [of _ ip], rule exI [of _ fp]) (intro conjI f i p z vi vp)
qed

lemma millis_split:
  "rat_of_nat (n div 1000) + rat_of_nat (n mod 1000) / 1000 = rat_of_nat n / 1000"
proof -
  have "rat_of_nat n = rat_of_nat (1000 * (n div 1000) + n mod 1000)" by simp
  also have "\<dots> = 1000 * rat_of_nat (n div 1000) + rat_of_nat (n mod 1000)"
    by (simp only: of_nat_add of_nat_mult of_nat_numeral)
  finally show ?thesis by simp
qed

subsection \<open>Facts about the example paths\<close>

lemma supported_demo [simp]:
  "is_supported_media ''song.mp3''" "is_supported_media ''broken.mp3''"
  "\<not> is_supported_media ''notes.txt''"
  by code_simp+

lemma ext_demo:
  "lstrip CHR ''.'' (lower (snd (splitext ''song.mp3''))) = ''mp3''"
  "lstrip CHR ''.'' (lower (snd (splitext ''broken.mp3''))) = ''mp3''"
  "lstrip CHR ''.'' (lower (snd (splitext ''notes.txt''))) = ''txt''"
  by code_simp+

lemma demo_duration:
  "get_duration_seconds demo_env ''song.mp3'' = ([Call_from_file ''song.mp3'' ''mp3''], Inr 3)"
  "get_duration_seconds demo_env ''broken.mp3'' =
     ([Call_from_file ''broken.mp3'' ''mp3''], Inl (RuntimeError msg_decode_failed))"
  by (simp_all add: get_duration_seconds_def demo_env_def ext_demo)

lemma demo_isfile:
  "isfile demo_env ''song.mp3''" "isfile demo_env ''broken.mp3''"
  "isfile no_pydub_env ''song.mp3''" "isfile no_mutagen_env ''song.mp3''"
  "isfile no_ffmpeg_env ''song.mp3''"
  by (simp_all add: demo_env_def no_pydub_env_def no_mutagen_env_def no_ffmpeg_env_def)

subsection \<open>The duration stage and the dispatcher\<close>

lemma main_duration_raised:
  assumes "isfile env path" "is_supported_media path"
    and "get_duration_seconds env path = (ev, Inl e)"
  shows "main env path = (main_started path @ ev @ [Print (msg_duration_error @ str_exn e)], 3)"
  using assms by (simp add: main_def)

lemma main_duration_returned:
  assumes "isfile env path" "is_supported_media path"
    and "get_duration_seconds env path = (ev, Inr d)"
  shows "main env path =
           (case get_metadata env path of
              (ev', Inl e) \<Rightarrow>
                (main_started path @ ev @
                 [Print (msg_duration @ fmt_3f d @ '' c''), Call_get_metadata path] @ ev' @
                 [Print (msg_metadata_error @ str_exn e)], 0)
            | (ev', Inr md) \<Rightarrow>
                (main_started path @ ev @
                 [Print (msg_duration @ fmt_3f d @ '' c''), Call_get_metadata path] @ ev' @
                 print_metadata md, 0))"
  using assms by (simp add: main_def Let_def split: prod.splits sum.splits)

lemma duration_no_pydub:
  "AudioSegment env = None \<Longrightarrow>
     get_duration_seconds env path = ([], Inl (RuntimeError msg_no_pydub))"
  by (simp add: get_duration_seconds_def)

lemma duration_raised:
  assumes "AudioSegment env = Some from_file"
    and "from_file path (lstrip CHR ''.'' (lower (snd (splitext path)))) = Inl x"
  shows "get_duration_seconds env path =
           ([Call_from_file path (lstrip CHR ''.'' (lower (snd (splitext path))))],
            Inl (case x of CouldntDecodeError m \<Rightarrow> RuntimeError msg_decode_failed | _ \<Rightarrow> x))"
  using assms by (simp add: get_duration_seconds_def Let_def split: exn.splits)

lemma duration_returned:
  assumes "AudioSegment env = Some from_file"
    and "from_file path (lstrip CHR ''.'' (lower (snd (splitext path)))) = Inr a"
  shows "get_duration_seconds env path =
           ([Call_from_file path (lstrip CHR ''.'' (lower (snd (splitext path))))],
            Inr (of_nat (len_ms a) / 1000))"
  using assms by (simp add: get_duration_seconds_def Let_def)

lemma main_exit_code_3_iff:
  assumes "isfile env path" "is_supported_media path"
  shows "snd (main env path) = 3 \<longleftrightarrow> (\<exists>ev e. get_duration_seconds env path = (ev, Inl e))"
proof (cases "get_duration_seconds env path")
  case (Pair ev r)
  show ?thesis
  proof (cases r)
    case (Inl e)
    with Pair main_duration_raised [OF assms, of ev e] show ?thesis by simp
  next
    case (Inr d)
    with Pair main_duration_returned [OF assms, of ev d] show ?thesis
      by (simp split: prod.splits sum.splits)
  qed
qed

subsection \<open>The metadata stage\<close>

lemma easy_loop_assign:
  "easy_loop its d = assign_all (map (\<lambda>(k, v). (k, easy_value v)) its) d"
  by (induction its d rule: easy_loop.induct) (simp_all add: easy_value_def)

lemma full_loop_assign:
  "full_loop its d = assign_all (map (\<lambda>(k, v). (py_str k, full_value v)) its) d"
  by (induction its d rule: full_loop.induct) (simp_all add: full_value_def)

lemma assign_all_distinct:
  "distinct (map fst d) \<Longrightarrow> distinct (map fst (assign_all kvs d))"
  by (induction kvs d rule: assign_all.induct) (simp_all add: distinct_update)







lemma full_tags_items_raised:
  "tags mf = Some t \<Longrightarrow> truthy t \<Longrightarrow> items t = Inl x \<Longrightarrow>
     full_tags (Some mf) d = d"
  by (simp add: full_tags_def)

lemma easy_tags_distinct:
  "easy_tags mf d = Inr out \<Longrightarrow> distinct (map fst d) \<Longrightarrow> distinct (map fst out)"
  by (auto simp: easy_tags_def easy_loop_assign assign_all_distinct
           split: option.splits if_splits sum.splits)

lemma full_tags_distinct:
  "distinct (map fst d) \<Longrightarrow> distinct (map fst (full_tags mf d))"
  by (auto simp: full_tags_def full_loop_assign assign_all_distinct
           split: option.splits if_splits sum.splits)

lemma get_metadata_result:
  assumes "MutagenFile env = Some m"
  shows "snd (get_metadata env path) =
           (case simplified_view m path of
              Inl e \<Rightarrow> Inl e
            | Inr out \<Rightarrow> if out \<noteq> [] then Inr out else raw_view m path)"
  using assms
  by (simp add: get_metadata_def simplified_view_def raw_view_def split: sum.splits)

lemma get_metadata_log:
  assumes "MutagenFile env = Some m"
  shows "fst (get_metadata env path) =
           Call_MutagenFile path True #
           (if simplified_view m path = Inr [] then [Call_MutagenFile path False] else [])"
  using assms
  by (simp add: get_metadata_def simplified_view_def split: sum.splits)

lemma get_metadata_distinct:
  assumes "get_metadata env path = (ev, Inr md)"
  shows "distinct (map fst md)"
proof (cases "MutagenFile env")
  case None
  with assms show ?thesis by (simp add: get_metadata_def)
next
  case (Some m)
  from get_metadata_result [OF Some, of path] assms
  have r: "(case simplified_view m path of
              Inl e \<Rightarrow> Inl e
            | Inr out \<Rightarrow> if out \<noteq> [] then Inr out else raw_view m path) = Inr md"
    by simp
  show ?thesis
  proof (cases "simplified_view m path")
    case (Inl e)
    with r show ?thesis by simp
  next
    case (Inr out)
    then have d: "distinct (map fst out)"
      by (auto simp: simplified_view_def split: sum.splits dest: easy_tags_distinct)
    show ?thesis
    proof (cases "out = []")
      case False
      with r Inr d show ?thesis by simp
    next
      case True
      with r Inr have "raw_view m path = Inr md" by simp
      then show ?thesis
        by (auto simp: raw_view_def full_tags_distinct split: sum.splits)
    qed
  qed
qed







lemma map_of_the_pairs:
  assumes "distinct (map fst md)"
  shows "set (map (\<lambda>k. (k, the (map_of md k))) (map fst md)) = set md"
proof -
  have "(k, the (map_of md k)) = (k, v)" if "(k, v) \<in> set md" for k v
    using that assms by simp
  then show ?thesis by force
qed

lemma print_metadata_lines:
  assumes "distinct (map fst md)" "md \<noteq> []"
  shows "\<exists>kvs. print_metadata md =
             Print msg_metadata_header # map (\<lambda>(k, v). Print (''  - '' @ k @ '': '' @ v)) kvs
           \<and> sorted (map fst kvs) \<and> distinct (map fst kvs)
           \<and> set kvs = set md \<and> length kvs = length md"
proof -
  define kvs where "kvs = map (\<lambda>k. (k, the (map_of md k))) (sort (map fst md))"
  have k: "map fst kvs = sort (map fst md)"
    by (simp add: kvs_def comp_def)
  have "set kvs = (\<lambda>k. (k, the (map_of md k))) ` set (map fst md)"
    by (simp add: kvs_def)
  also have "\<dots> = set md"
    using map_of_the_pairs [OF assms(1)] by (simp add: image_image)
  finally have s: "set kvs = set md" .
  have p: "print_metadata md =
             Print msg_metadata_header # map (\<lambda>(k, v). Print (''  - '' @ k @ '': '' @ v)) kvs"
    using assms(2) by (simp add: print_metadata_def kvs_def comp_def)
  have "sorted (map fst kvs)" "distinct (map fst kvs)" "length kvs = length md"
    using assms(1) by (simp_all add: k) (simp add: kvs_def)
  with p s show ?thesis by blast
qed

lemma print_metadata_cong:
  assumes "distinct (map fst md)" "distinct (map fst md')" "map_of md' = map_of md"
  shows "print_metadata md' = print_metadata md"
proof -
  have "set (map fst md') = dom (map_of md')" "set (map fst md) = dom (map_of md)"
    by (simp_all add: dom_map_of_conv_image_fst)
  with assms(3) have ks: "set (map fst md') = set (map fst md)" by simp
  have "sort (map fst md') = sorted_list_of_set (set (map fst md'))"
    by (simp only: sorted_list_of_set_sort_remdups distinct_remdups_id [OF assms(2)])
  also have "\<dots> = sorted_list_of_set (set (map fst md))" by (simp only: ks)
  also have "\<dots> = sort (map fst md)"
    by (simp only: sorted_list_of_set_sort_remdups distinct_remdups_id [OF assms(1)])
  finally have so: "sort (map fst md') = sort (map fst md)" .
  from ks have "md' = [] \<longleftrightarrow> md = []" by (metis list.map_disc_iff set_empty)
  with so assms(3) show ?thesis by (simp add: print_metadata_def)
qed


subsection \<open>C1: a metadata failure is not fatal\<close>

text \<open>
  Claim C1. For every existing file with a supported extension on which the duration
  stage returns, if the metadata stage raises an error, the program prints the error
  text behind the metadata-error prefix and exits with code 0; the duration line is
  already in the log, before the metadata stage is called.
\<close>

theorem main_metadata_failure_not_fatal:
  assumes "isfile env path" "is_supported_media path"
    and "get_duration_seconds env path = (ev, Inr d)"
    and "get_metadata env path = (ev', Inl e)"
  shows "main env path =
           (main_started path @ ev @
            [Print (msg_duration @ fmt_3f d @ '' c''), Call_get_metadata path] @ ev' @
            [Print (msg_metadata_error @ str_exn e)], 0)"
  using main_duration_returned [OF assms(1-3)] assms(4) by simp

theorem main_metadata_failure_not_fatal_witness:
  "isfile no_mutagen_env ''song.mp3'' \<and> is_supported_media ''song.mp3''
   \<and> get_duration_seconds no_mutagen_env ''song.mp3''
         = ([Call_from_file ''song.mp3'' ''mp3''], Inr 3)
   \<and> get_metadata no_mutagen_env ''song.mp3'' = ([], Inl (RuntimeError msg_no_mutagen))
   \<and> main no_mutagen_env ''song.mp3'' =
         (main_started ''song.mp3'' @
          [Call_from_file ''song.mp3'' ''mp3'',
           Print (msg_duration @ ''3.000 c''), Call_get_metadata ''song.mp3'',
           Print (msg_metadata_error @ msg_no_mutagen)], 0)"
proof -
  have s: "is_supported_media ''song.mp3''" by simp
  have d: "get_duration_seconds no_mutagen_env ''song.mp3''
             = ([Call_from_file ''song.mp3'' ''mp3''], Inr 3)"
    by (simp add: get_duration_seconds_def no_mutagen_env_def demo_env_def ext_demo)
  have m: "get_metadata no_mutagen_env ''song.mp3'' = ([], Inl (RuntimeError msg_no_mutagen))"
    by (simp add: get_metadata_def no_mutagen_env_def)
  have fmt: "fmt_3f 3 = ''3.000''"
    by (simp add: fmt_3f_def show_nat_small digit_def)
  from main_metadata_failure_not_fatal [OF demo_isfile(4) s d m]
  have "main no_mutagen_env ''song.mp3'' =
         (main_started ''song.mp3'' @
          [Call_from_file ''song.mp3'' ''mp3'',
           Print (msg_duration @ ''3.000 c''), Call_get_metadata ''song.mp3'',
           Print (msg_metadata_error @ msg_no_mutagen)], 0)"
    by (simp add: fmt)
  with demo_isfile(4) s d m show ?thesis by (intro conjI)
qed

subsection \<open>C2: the duration stage\<close>

text \<open>
  Claim C2. For every existing file with a supported extension: when pydub was not
  imported at start-up, and when the decoder raises \<open>CouldntDecodeError\<close>, the program
  prints the error text behind the duration-error prefix and exits with code 3. When the
  decoder returns, the program prints the duration as a decimal number with three digits
  after the point, followed by a space and the letter \<open>c\<close>: the digits in front of the
  point, without a leading zero, denote the whole seconds of the decoded length, and the
  three digits behind it its remaining milliseconds, so that the number printed is the
  duration that the stage returned.
\<close>

theorem main_duration_stage:
  assumes "isfile env path" "is_supported_media path"
  shows "(AudioSegment env = None \<longrightarrow>
            main env path =
              (main_started path @ [Print (msg_duration_error @ msg_no_pydub)], 3))
       \<and> (\<forall>from_file m. AudioSegment env = Some from_file \<longrightarrow>
            from_file path (lstrip CHR ''.'' (lower (snd (splitext path))))
              = Inl (CouldntDecodeError m) \<longrightarrow>
            main env path =
              (main_started path @
               [Call_from_file path (lstrip CHR ''.'' (lower (snd (splitext path)))),
                Print (msg_duration_error @ msg_decode_failed)], 3))
       \<and> (\<forall>from_file a. AudioSegment env = Some from_file \<longrightarrow>
            from_file path (lstrip CHR ''.'' (lower (snd (splitext path)))) = Inr a \<longrightarrow>
            (\<exists>ip fp rest.
               fst (main env path) =
                 main_started path @
                 [Call_from_file path (lstrip CHR ''.'' (lower (snd (splitext path)))),
                  Print (msg_duration @ ip @ ''.'' @ fp @ '' c'')] @ rest
               \<and> ip @ ''.'' @ fp = fmt_3f (of_nat (len_ms a) / 1000)
               \<and> ip \<noteq> [] \<and> list_all is_digit ip \<and> length fp = 3 \<and> list_all is_digit fp
               \<and> (ip = ''0'' \<or> hd ip \<noteq> CHR ''0'')
               \<and> dec_value ip = len_ms a div 1000 \<and> dec_value fp = len_ms a mod 1000
               \<and> rat_of_nat (dec_value ip) + rat_of_nat (dec_value fp) / 1000
                     = rat_of_nat (len_ms a) / 1000
               \<and> snd (get_duration_seconds env path) = Inr (rat_of_nat (len_ms a) / 1000)))"
proof (intro conjI allI impI)
  assume "AudioSegment env = None"
  from main_duration_raised [OF assms duration_no_pydub [OF this]]
  show "main env path = (main_started path @ [Print (msg_duration_error @ msg_no_pydub)], 3)"
    by simp
next
  fix from_file m
  assume "AudioSegment env = Some from_file"
    and "from_file path (lstrip CHR ''.'' (lower (snd (splitext path)))) = Inl (CouldntDecodeError m)"
  from main_duration_raised [OF assms duration_raised [OF this]]
  show "main env path =
          (main_started path @
           [Call_from_file path (lstrip CHR ''.'' (lower (snd (splitext path)))),
            Print (msg_duration_error @ msg_decode_failed)], 3)"
    by simp
next
  fix from_file a
  assume "AudioSegment env = Some from_file"
    and "from_file path (lstrip CHR ''.'' (lower (snd (splitext path)))) = Inr a"
  note dur = duration_returned [OF this]
  from fmt_3f_millis [of "len_ms a"] obtain ip fp
    where f: "fmt_3f (of_nat (len_ms a) / 1000) = ip @ ''.'' @ fp"
      and s: "ip \<noteq> []" "list_all is_digit ip" "length fp = 3" "list_all is_digit fp"
      and z: "ip = ''0'' \<or> hd ip \<noteq> CHR ''0''"
      and v: "dec_value ip = len_ms a div 1000" "dec_value fp = len_ms a mod 1000"
    by blast
  have q: "rat_of_nat (dec_value ip) + rat_of_nat (dec_value fp) / 1000
             = rat_of_nat (len_ms a) / 1000"
    unfolding v by (rule millis_split)
  have g: "snd (get_duration_seconds env path) = Inr (rat_of_nat (len_ms a) / 1000)"
    by (simp add: dur)
  obtain ev' r where md: "get_metadata env path = (ev', r)" by (cases "get_metadata env path")
  define rest where "rest = Call_get_metadata path # ev' @
      (case r of Inl e \<Rightarrow> [Print (msg_metadata_error @ str_exn e)] | Inr md \<Rightarrow> print_metadata md)"
  have l: "fst (main env path) =
          main_started path @
          [Call_from_file path (lstrip CHR ''.'' (lower (snd (splitext path)))),
           Print (msg_duration @ ip @ ''.'' @ fp @ '' c'')] @ rest"
    using main_duration_returned [OF assms dur] md f
    by (simp add: rest_def split: sum.splits)
  show "\<exists>ip fp rest.
          fst (main env path) =
            main_started path @
            [Call_from_file path (lstrip CHR ''.'' (lower (snd (splitext path)))),
             Print (msg_duration @ ip @ ''.'' @ fp @ '' c'')] @ rest
          \<and> ip @ ''.'' @ fp = fmt_3f (of_nat (len_ms a) / 1000)
          \<and> ip \<noteq> [] \<and> list_all is_digit ip \<and> length fp = 3 \<and> list_all is_digit fp
          \<and> (ip = ''0'' \<or> hd ip \<noteq> CHR ''0'')
          \<and> dec_value ip = len_ms a div 1000 \<and> dec_value fp = len_ms a mod 1000
          \<and> rat_of_nat (dec_value ip) + rat_of_nat (dec_value fp) / 1000
                = rat_of_nat (len_ms a) / 1000
          \<and> snd (get_duration_seconds env path) = Inr (rat_of_nat (len_ms a) / 1000)"
    by (rule exI [of _ ip], rule exI [of _ fp], rule exI [of _ rest])
       (intro conjI l f [symmetric] s z v q g)
qed

theorem main_duration_stage_witness:
  "isfile no_pydub_env ''song.mp3'' \<and> is_supported_media ''song.mp3''
   \<and> AudioSegment no_pydub_env = None
   \<and> main no_pydub_env ''song.mp3'' =
         (main_started ''song.mp3'' @ [Print (msg_duration_error @ msg_no_pydub)], 3)
   \<and> main demo_env ''broken.mp3'' =
         (main_started ''broken.mp3'' @
          [Call_from_file ''broken.mp3'' ''mp3'',
           Print (msg_duration_error @ msg_decode_failed)], 3)
   \<and> (\<exists>rest. fst (main demo_env ''song.mp3'') =
         main_started ''song.mp3'' @
         [Call_from_file ''song.mp3'' ''mp3'', Print (msg_duration @ ''3.000 c'')] @ rest)"
proof -
  define F :: "string \<Rightarrow> string \<Rightarrow> exn + audio"
    where "F = (\<lambda>p f. if p = ''song.mp3'' then Inr (Audio 3000)
                          else Inl (CouldntDecodeError ''Decoding failed''))"
  have s: "is_supported_media ''song.mp3''" and b: "is_supported_media ''broken.mp3''"
    by simp_all
  have n: "AudioSegment no_pydub_env = None"
    by (simp add: no_pydub_env_def)
  have a: "AudioSegment demo_env = Some F"
    by (simp add: demo_env_def F_def)
  have fb: "F ''broken.mp3'' (lstrip CHR ''.'' (lower (snd (splitext ''broken.mp3''))))
              = Inl (CouldntDecodeError ''Decoding failed'')"
    by (simp add: F_def)
  have fs: "F ''song.mp3'' (lstrip CHR ''.'' (lower (snd (splitext ''song.mp3''))))
              = Inr (Audio 3000)"
    by (simp add: F_def)
  have fmt: "fmt_3f (of_nat (len_ms (Audio 3000)) / 1000) = ''3.000''"
    by (simp add: fmt_3f_def show_nat_small digit_def)
  from main_duration_stage [OF demo_isfile(3) s] n
  have w1: "main no_pydub_env ''song.mp3'' =
         (main_started ''song.mp3'' @ [Print (msg_duration_error @ msg_no_pydub)], 3)"
    by blast
  from main_duration_stage [OF demo_isfile(2) b] a fb
  have "main demo_env ''broken.mp3'' =
         (main_started ''broken.mp3'' @
          [Call_from_file ''broken.mp3'' (lstrip CHR ''.'' (lower (snd (splitext ''broken.mp3'')))),
           Print (msg_duration_error @ msg_decode_failed)], 3)"
    by blast
  then have w2: "main demo_env ''broken.mp3'' =
         (main_started ''broken.mp3'' @
          [Call_from_file ''broken.mp3'' ''mp3'',
           Print (msg_duration_error @ msg_decode_failed)], 3)"
    by (simp only: ext_demo)
  from main_duration_stage [OF demo_isfile(1) s] a fs
  obtain ip fp rest where
    l: "fst (main demo_env ''song.mp3'') =
          main_started ''song.mp3'' @
          [Call_from_file ''song.mp3'' (lstrip CHR ''.'' (lower (snd (splitext ''song.mp3'')))),
           Print (msg_duration @ ip @ ''.'' @ fp @ '' c'')] @ rest"
    and f: "ip @ ''.'' @ fp = fmt_3f (of_nat (len_ms (Audio 3000)) / 1000)"
    by blast
  have "ip @ ''.'' @ fp @ '' c'' = (ip @ ''.'' @ fp) @ '' c''" by simp
  also have "\<dots> = ''3.000 c''" by (simp only: f fmt) simp
  finally have "fst (main demo_env ''song.mp3'') =
          main_started ''song.mp3'' @
          [Call_from_file ''song.mp3'' ''mp3'', Print (msg_duration @ ''3.000 c'')] @ rest"
    using l by (simp only: ext_demo)
  then have w3: "\<exists>rest. fst (main demo_env ''song.mp3'') =
         main_started ''song.mp3'' @
         [Call_from_file ''song.mp3'' ''mp3'', Print (msg_duration @ ''3.000 c'')] @ rest"
    by (rule exI)
  from demo_isfile(3) s n w1 w2 w3 show ?thesis by (intro conjI)
qed

subsection \<open>C3: a path that is not a file\<close>

text \<open>
  Claim C3. For every path that \<open>os.path.isfile\<close> rejects, whatever its extension, the
  run consists of that check and one printed line, the file-not-found message followed by
  the path, and the exit code is 1. The log has no further entry: the extension check,
  the duration stage and the metadata stage are not called.
\<close>

theorem main_file_not_found:
  "\<not> isfile env path \<Longrightarrow>
     main env path = ([Call_isfile path, Print (msg_not_found @ path)], 1)"
  by (simp add: main_def)

theorem main_file_not_found_witness:
  "\<not> isfile demo_env ''missing.wav''
   \<and> main demo_env ''missing.wav'' =
         ([Call_isfile ''missing.wav'', Print (msg_not_found @ ''missing.wav'')], 1)"
proof -
  have h: "\<not> isfile demo_env ''missing.wav''" by (simp add: demo_env_def)
  from h main_file_not_found [OF h] show ?thesis by (rule conjI)
qed

subsection \<open>C4: an existing file with another extension\<close>

text \<open>
  Claim C4. For every existing file whose extension, lower-cased and without its dot, is
  neither \<open>mp3\<close> nor \<open>wav\<close>, the run consists of the two checks and one printed error
  line, and the exit code is 2. The decoder is never called.
\<close>

theorem main_unsupported_format:
  assumes "isfile env path"
    and "lstrip CHR ''.'' (lower (snd (splitext path))) \<notin> {''mp3'', ''wav''}"
  shows "main env path =
           ([Call_isfile path, Call_is_supported_media path, Print msg_unsupported], 2)
         \<and> (\<forall>p f. Call_from_file p f \<notin> set (fst (main env path)))"
  using assms by (simp add: main_def is_supported_media_def SUPPORTED_EXTS_def)

theorem main_unsupported_format_witness:
  "isfile demo_env ''notes.txt''
   \<and> lstrip CHR ''.'' (lower (snd (splitext ''notes.txt''))) \<notin> {''mp3'', ''wav''}
   \<and> main demo_env ''notes.txt'' =
         ([Call_isfile ''notes.txt'', Call_is_supported_media ''notes.txt'',
           Print msg_unsupported], 2)"
proof -
  have h1: "isfile demo_env ''notes.txt''" by (simp add: demo_env_def)
  have h2: "lstrip CHR ''.'' (lower (snd (splitext ''notes.txt''))) \<notin> {''mp3'', ''wav''}"
    by (simp add: ext_demo)
  from h1 h2 conjunct1 [OF main_unsupported_format [OF h1 h2]] show ?thesis
    by (intro conjI)
qed

subsection \<open>C5: the extension classifier\<close>

text \<open>
  Claim C5. \<open>is_supported_media\<close> is a total function from path strings to booleans.
  It is true exactly when the extension that \<open>splitext\<close> returns, without its leading
  dot and lower-cased, is one of \<open>mp3\<close> and \<open>wav\<close>. Spelled out on the path itself:
  the path ends in a dot followed by such an extension, and the last path component has a
  character other than a dot in front of that dot. A path with no extension is not
  supported.
\<close>

theorem is_supported_media_classifies:
  "(is_supported_media path \<longleftrightarrow>
      (\<exists>e. snd (splitext path) = CHR ''.'' # e \<and> lower e \<in> {''mp3'', ''wav''}))
   \<and> (is_supported_media path \<longleftrightarrow>
      (\<exists>dir base e. path = dir @ base @ CHR ''.'' # e
         \<and> (dir = [] \<or> last dir = CHR ''/'') \<and> CHR ''/'' \<notin> set base
         \<and> (\<exists>c\<in>set base. c \<noteq> CHR ''.'') \<and> lower e \<in> {''mp3'', ''wav''}))
   \<and> (snd (splitext path) = [] \<longrightarrow> \<not> is_supported_media path)"
proof (intro conjI)
  show "is_supported_media path \<longleftrightarrow>
      (\<exists>e. snd (splitext path) = CHR ''.'' # e \<and> lower e \<in> {''mp3'', ''wav''})"
    using supported_ext_iff [of path] by (simp only: SUPPORTED_EXTS_def)
  show "is_supported_media path \<longleftrightarrow>
      (\<exists>dir base e. path = dir @ base @ CHR ''.'' # e
         \<and> (dir = [] \<or> last dir = CHR ''/'') \<and> CHR ''/'' \<notin> set base
         \<and> (\<exists>c\<in>set base. c \<noteq> CHR ''.'') \<and> lower e \<in> {''mp3'', ''wav''})"
    using supported_shape_iff [of path] by (simp only: SUPPORTED_EXTS_def)
  show "snd (splitext path) = [] \<longrightarrow> \<not> is_supported_media path"
    by (simp add: supported_ext_iff)
qed

theorem is_supported_media_classifies_witness:
  "is_supported_media ''a/b.c/song.Mp3'' \<and> snd (splitext ''notes'') = []
   \<and> \<not> is_supported_media ''notes''"
proof -
  have h: "snd (splitext ''notes'') = []" by code_simp
  have l: "lower ''Mp3'' \<in> {''mp3'', ''wav''}" by code_simp
  have ex: "\<exists>dir base e. ''a/b.c/song.Mp3'' = dir @ base @ CHR ''.'' # e
         \<and> (dir = [] \<or> last dir = CHR ''/'') \<and> CHR ''/'' \<notin> set base
         \<and> (\<exists>c\<in>set base. c \<noteq> CHR ''.'') \<and> lower e \<in> {''mp3'', ''wav''}"
    using l
    by (intro exI [of _ "''a/b.c/''"] exI [of _ "''song''"] exI [of _ "''Mp3''"]) simp
  have a: "is_supported_media ''a/b.c/song.Mp3''"
    by (rule iffD2 [OF conjunct1 [OF conjunct2 [OF is_supported_media_classifies]]])
       (rule ex)
  have b: "\<not> is_supported_media ''notes''"
    by (rule mp [OF conjunct2 [OF conjunct2 [OF is_supported_media_classifies]]])
       (rule h)
  from a h b show ?thesis by (intro conjI)
qed

subsection \<open>C6: simplified view first, raw view as the fallback\<close>




subsection \<open>C7: a multi-valued tag is one joined entry\<close>




subsection \<open>C8: the tag block is printed in key order\<close>

text \<open>
  Claim C8. For the mapping that the metadata stage returns: when it is not empty, the
  program prints the header line and then exactly one line per tag, two spaces, a dash,
  a space, the key, a colon, a space and the value, the keys in strictly ascending
  order; when it is empty, the program prints the single no-metadata notice. The
  printed block depends on the mapping only, not on the order in which its entries were
  stored. These lines end the log of a successful run, which exits with code 0.
\<close>

theorem metadata_rendering:
  assumes "get_metadata env path = (ev', Inr md)"
  shows "(md \<noteq> [] \<longrightarrow>
            (\<exists>kvs. print_metadata md =
                 Print msg_metadata_header #
                 map (\<lambda>(k, v). Print (''  - '' @ k @ '': '' @ v)) kvs
               \<and> sorted (map fst kvs) \<and> distinct (map fst kvs)
               \<and> set kvs = set md \<and> length kvs = length md))
       \<and> (md = [] \<longrightarrow> print_metadata md = [Print msg_no_metadata])
       \<and> (\<forall>md'. distinct (map fst md') \<longrightarrow> map_of md' = map_of md \<longrightarrow>
            print_metadata md' = print_metadata md)
       \<and> (isfile env path \<longrightarrow> is_supported_media path \<longrightarrow>
            (\<forall>ev d. get_duration_seconds env path = (ev, Inr d) \<longrightarrow>
               main env path =
                 (main_started path @ ev @
                  [Print (msg_duration @ fmt_3f d @ '' c''), Call_get_metadata path] @ ev' @
                  print_metadata md, 0)))"
proof (intro conjI allI impI)
  note d = get_metadata_distinct [OF assms]
  {
    assume "md \<noteq> []"
    with d show "\<exists>kvs. print_metadata md =
                 Print msg_metadata_header #
                 map (\<lambda>(k, v). Print (''  - '' @ k @ '': '' @ v)) kvs
               \<and> sorted (map fst kvs) \<and> distinct (map fst kvs)
               \<and> set kvs = set md \<and> length kvs = length md"
      by (rule print_metadata_lines)
  next
    assume "md = []"
    then show "print_metadata md = [Print msg_no_metadata]"
      by (simp add: print_metadata_def)
  next
    fix md' :: tag_dict
    assume "distinct (map fst md')" "map_of md' = map_of md"
    with d show "print_metadata md' = print_metadata md"
      by (rule print_metadata_cong)
  next
    fix ev d
    assume "isfile env path" "is_supported_media path"
      "get_duration_seconds env path = (ev, Inr d)"
    from main_duration_returned [OF this] assms
    show "main env path =
            (main_started path @ ev @
             [Print (msg_duration @ fmt_3f d @ '' c''), Call_get_metadata path] @ ev' @
             print_metadata md, 0)"
      by simp
  }
qed

theorem metadata_rendering_witness:
  "get_metadata multi_env ''song.mp3'' =
     ([Call_MutagenFile ''song.mp3'' True], Inr [(''title'', ''Test''), (''artist'', ''Ann, Bob'')])
   \<and> isfile multi_env ''song.mp3'' \<and> is_supported_media ''song.mp3''
   \<and> main multi_env ''song.mp3'' =
         (main_started ''song.mp3'' @
          [Call_from_file ''song.mp3'' ''mp3'', Print (msg_duration @ ''3.000 c''),
           Call_get_metadata ''song.mp3'', Call_MutagenFile ''song.mp3'' True,
           Print msg_metadata_header,
           Print ''  - artist: Ann, Bob'', Print ''  - title: Test''], 0)"
proof -
  have g: "get_metadata multi_env ''song.mp3'' =
     ([Call_MutagenFile ''song.mp3'' True], Inr [(''title'', ''Test''), (''artist'', ''Ann, Bob'')])"
    by (simp add: get_metadata_def multi_env_def easy_tags_def artists_def)
  have f: "isfile multi_env ''song.mp3''"
    by (simp add: multi_env_def demo_env_def)
  have s: "is_supported_media ''song.mp3''" by simp
  have d: "get_duration_seconds multi_env ''song.mp3''
             = ([Call_from_file ''song.mp3'' ''mp3''], Inr 3)"
    by (simp add: get_duration_seconds_def multi_env_def demo_env_def ext_demo)
  have fmt: "fmt_3f 3 = ''3.000''"
    by (simp add: fmt_3f_def show_nat_small digit_def)
  have so: "sort [''title'', ''artist''] = [''artist'', ''title'']"
    by code_simp
  have p: "print_metadata [(''title'', ''Test''), (''artist'', ''Ann, Bob'')] =
             [Print msg_metadata_header,
              Print ''  - artist: Ann, Bob'', Print ''  - title: Test'']"
    unfolding print_metadata_def list.map fst_conv so by simp
  from metadata_rendering [OF g] f s d
  have "main multi_env ''song.mp3'' =
          (main_started ''song.mp3'' @ [Call_from_file ''song.mp3'' ''mp3''] @
           [Print (msg_duration @ fmt_3f 3 @ '' c''), Call_get_metadata ''song.mp3''] @
           [Call_MutagenFile ''song.mp3'' True] @
           print_metadata [(''title'', ''Test''), (''artist'', ''Ann, Bob'')], 0)"
    by blast
  then have "main multi_env ''song.mp3'' =
         (main_started ''song.mp3'' @
          [Call_from_file ''song.mp3'' ''mp3'', Print (msg_duration @ ''3.000 c''),
           Call_get_metadata ''song.mp3'', Call_MutagenFile ''song.mp3'' True,
           Print msg_metadata_header,
           Print ''  - artist: Ann, Bob'', Print ''  - title: Test''], 0)"
    by (simp only: p fmt) simp
  with g f s show ?thesis by (intro conjI)
qed

subsection \<open>C9: an exception of the raw view's items is swallowed\<close>

text \<open>
  Claim C9. When the simplified view yields no entries and \<open>items()\<close> of the raw view's
  tags raises, the metadata stage does not raise: it returns the empty mapping. The
  program then prints the no-metadata notice and exits with code 0; no metadata-error
  line is printed.
\<close>

theorem raw_items_exception_swallowed:
  assumes "MutagenFile env = Some m" "simplified_view m path = Inr []"
    and "File_full m path = Inr (Some mf)" "tags mf = Some t" "truthy t" "items t = Inl x"
  shows "get_metadata env path =
           ([Call_MutagenFile path True, Call_MutagenFile path False], Inr [])
       \<and> (isfile env path \<longrightarrow> is_supported_media path \<longrightarrow>
            (\<forall>ev d. get_duration_seconds env path = (ev, Inr d) \<longrightarrow>
               main env path =
                 (main_started path @ ev @
                  [Print (msg_duration @ fmt_3f d @ '' c''), Call_get_metadata path,
                   Call_MutagenFile path True, Call_MutagenFile path False,
                   Print msg_no_metadata], 0)))"
proof -
  from assms(3-6) have "raw_view m path = Inr []"
    by (simp add: raw_view_def full_tags_items_raised)
  with get_metadata_result [OF assms(1), of path] get_metadata_log [OF assms(1), of path] assms(2)
  have g: "get_metadata env path =
             ([Call_MutagenFile path True, Call_MutagenFile path False], Inr [])"
    by (simp add: prod_eq_iff)
  have "main env path =
          (main_started path @ ev @
           [Print (msg_duration @ fmt_3f d @ '' c''), Call_get_metadata path,
            Call_MutagenFile path True, Call_MutagenFile path False,
            Print msg_no_metadata], 0)"
    if "isfile env path" "is_supported_media path" "get_duration_seconds env path = (ev, Inr d)"
    for ev d
    using main_duration_returned [OF that] g by (simp add: print_metadata_def)
  with g show ?thesis by blast
qed

theorem raw_items_exception_swallowed_witness:
  "MutagenFile raw_broken_env \<noteq> None
   \<and> isfile raw_broken_env ''song.mp3'' \<and> is_supported_media ''song.mp3''
   \<and> main raw_broken_env ''song.mp3'' =
         (main_started ''song.mp3'' @
          [Call_from_file ''song.mp3'' ''mp3'', Print (msg_duration @ ''3.000 c''),
           Call_get_metadata ''song.mp3'',
           Call_MutagenFile ''song.mp3'' True, Call_MutagenFile ''song.mp3'' False,
           Print msg_no_metadata], 0)"
proof -
  define T :: "pyval tags"
    where "T = \<lparr> truthy = True, items = Inl (OtherException ''corrupt tag block'') \<rparr>"
  define MF :: "pyval mfile" where "MF = \<lparr> tags = Some T \<rparr>"
  define M :: mutagen
    where "M = \<lparr> File_easy = (\<lambda>p. Inr (Some \<lparr> tags = None \<rparr>)), File_full = (\<lambda>p. Inr (Some MF)) \<rparr>"
  have m: "MutagenFile raw_broken_env = Some M"
    by (simp add: raw_broken_env_def M_def MF_def T_def)
  have sv: "simplified_view M ''song.mp3'' = Inr []"
    by (simp add: simplified_view_def M_def easy_tags_def)
  have ff: "File_full M ''song.mp3'' = Inr (Some MF)" by (simp add: M_def)
  have tg: "tags MF = Some T" by (simp add: MF_def)
  have tr: "truthy T" by (simp add: T_def)
  have it: "items T = Inl (OtherException ''corrupt tag block'')" by (simp add: T_def)
  have f: "isfile raw_broken_env ''song.mp3''"
    by (simp add: raw_broken_env_def demo_env_def)
  have s: "is_supported_media ''song.mp3''" by simp
  have d: "get_duration_seconds raw_broken_env ''song.mp3''
             = ([Call_from_file ''song.mp3'' ''mp3''], Inr 3)"
    by (simp add: get_duration_seconds_def raw_broken_env_def demo_env_def ext_demo)
  have fmt: "fmt_3f 3 = ''3.000''"
    by (simp add: fmt_3f_def show_nat_small digit_def)
  from raw_items_exception_swallowed [OF m sv ff tg tr it] f s d
  have "main raw_broken_env ''song.mp3'' =
         (main_started ''song.mp3'' @ [Call_from_file ''song.mp3'' ''mp3''] @
          [Print (msg_duration @ fmt_3f 3 @ '' c''), Call_get_metadata ''song.mp3'',
           Call_MutagenFile ''song.mp3'' True, Call_MutagenFile ''song.mp3'' False,
           Print msg_no_metadata], 0)"
    by blast
  then have "main raw_broken_env ''song.mp3'' =
         (main_started ''song.mp3'' @
          [Call_from_file ''song.mp3'' ''mp3'', Print (msg_duration @ ''3.000 c''),
           Call_get_metadata ''song.mp3'',
           Call_MutagenFile ''song.mp3'' True, Call_MutagenFile ''song.mp3'' False,
           Print msg_no_metadata], 0)"
    by (simp add: fmt)
  moreover from m have "MutagenFile raw_broken_env \<noteq> None" by simp
  ultimately show ?thesis using f s by (intro conjI)
qed

subsection \<open>C10: every exception of the duration stage ends in exit code 3\<close>

text \<open>
  Claim C10. For every input that passes both checks, whatever exception the duration
  stage raises is caught in \<open>main\<close>: its text is printed on one line behind the
  duration-error prefix and the exit code is 3. This holds for every exception that
  \<open>from_file\<close> raises, of any class, not only for \<open>CouldntDecodeError\<close> and the missing
  library; the run returns an exit code in every case, and the code is 3 exactly when the
  stage raised. Exceptions are the instances of \<open>Exception\<close>, the class the handler names.
\<close>

theorem main_catches_duration_exceptions:
  assumes "isfile env path" "is_supported_media path"
  shows "(\<forall>ev e. get_duration_seconds env path = (ev, Inl e) \<longrightarrow>
            main env path =
              (main_started path @ ev @ [Print (msg_duration_error @ str_exn e)], 3))
       \<and> (\<forall>from_file x. AudioSegment env = Some from_file \<longrightarrow>
            from_file path (lstrip CHR ''.'' (lower (snd (splitext path)))) = Inl x \<longrightarrow>
            main env path =
              (main_started path @
               [Call_from_file path (lstrip CHR ''.'' (lower (snd (splitext path)))),
                Print (msg_duration_error @
                       (case x of CouldntDecodeError m \<Rightarrow> msg_decode_failed
                        | _ \<Rightarrow> str_exn x))], 3))
       \<and> (snd (main env path) = 3 \<longleftrightarrow>
            (\<exists>ev e. get_duration_seconds env path = (ev, Inl e)))"
proof (intro conjI allI impI)
  fix ev e
  assume "get_duration_seconds env path = (ev, Inl e)"
  from main_duration_raised [OF assms this]
  show "main env path = (main_started path @ ev @ [Print (msg_duration_error @ str_exn e)], 3)" .
next
  fix from_file x
  assume "AudioSegment env = Some from_file"
    and "from_file path (lstrip CHR ''.'' (lower (snd (splitext path)))) = Inl x"
  from main_duration_raised [OF assms duration_raised [OF this]]
  show "main env path =
          (main_started path @
           [Call_from_file path (lstrip CHR ''.'' (lower (snd (splitext path)))),
            Print (msg_duration_error @
                   (case x of CouldntDecodeError m \<Rightarrow> msg_decode_failed
                    | _ \<Rightarrow> str_exn x))], 3)"
    by (cases x) simp_all
next
  show "snd (main env path) = 3 \<longleftrightarrow> (\<exists>ev e. get_duration_seconds env path = (ev, Inl e))"
    by (rule main_exit_code_3_iff [OF assms])
qed

theorem main_catches_duration_exceptions_witness:
  "isfile no_ffmpeg_env ''song.mp3'' \<and> is_supported_media ''song.mp3''
   \<and> main no_ffmpeg_env ''song.mp3'' =
         (main_started ''song.mp3'' @
          [Call_from_file ''song.mp3'' ''mp3'',
           Print (msg_duration_error @ ''ffmpeg not found'')], 3)"
proof -
  define F :: "string \<Rightarrow> string \<Rightarrow> exn + audio"
    where "F = (\<lambda>p f. Inl (OtherException ''ffmpeg not found''))"
  have s: "is_supported_media ''song.mp3''" by simp
  have a: "AudioSegment no_ffmpeg_env = Some F"
    by (simp add: no_ffmpeg_env_def F_def)
  have f: "F ''song.mp3'' (lstrip CHR ''.'' (lower (snd (splitext ''song.mp3''))))
             = Inl (OtherException ''ffmpeg not found'')"
    by (simp add: F_def)
  from main_catches_duration_exceptions [OF demo_isfile(5) s] a f
  have "main no_ffmpeg_env ''song.mp3'' =
         (main_started ''song.mp3'' @
          [Call_from_file ''song.mp3'' (lstrip CHR ''.'' (lower (snd (splitext ''song.mp3'')))),
           Print (msg_duration_error @
                  (case OtherException ''ffmpeg not found'' of
                     CouldntDecodeError m \<Rightarrow> msg_decode_failed
                   | _ \<Rightarrow> str_exn (OtherException ''ffmpeg not found'')))], 3)"
    by blast
  then have "main no_ffmpeg_env ''song.mp3'' =
         (main_started ''song.mp3'' @
          [Call_from_file ''song.mp3'' ''mp3'',
           Print (msg_duration_error @ ''ffmpeg not found'')], 3)"
    by (simp add: ext_demo)
  with demo_isfile(5) s show ?thesis by (intro conjI)
qed

end
